theory Spec2Isabelle
  imports Main "HOL-Library.Word"
begin

section \<open>Bytes and the file object\<close>

text \<open>
  A Python \<open>bytes\<close> value is a list of 8-bit words; Python integers are unbounded and are
  modelled as \<open>int\<close>. The class \<open>ApateDecryptor\<close> has a single attribute,
  \<open>mask_length_indicator_length\<close>, set to 4 in \<open>__init__\<close> and never assigned again, so it
  is a constant here.
\<close>

type_synonym byte = "8 word"
type_synonym bytes = "byte list"

definition mask_length_indicator_length :: int where
  "mask_length_indicator_length = 4"

text \<open>The exceptions that the modelled operations can raise.\<close>

datatype exn = StructError | OSError

text \<open>
  \<open>struct.unpack('<I', byte_data)[0]\<close>: exactly four bytes, read as an unsigned
  little-endian number; any other length raises \<open>struct.error\<close>.
\<close>

definition bytes_to_int :: "bytes \<Rightarrow> exn + int" where
  "bytes_to_int byte_data =
     (if length byte_data \<noteq> 4 then Inl StructError
      else Inr (uint (byte_data ! 0) + 256 * uint (byte_data ! 1)
                + 65536 * uint (byte_data ! 2) + 16777216 * uint (byte_data ! 3)))"

definition reverse_byte_array :: "bytes \<Rightarrow> bytes" where
  "reverse_byte_array buffer = rev buffer"

text \<open>
  The lines that \<open>reveal_file\<close> can print, one constructor for each \<open>print\<close> of the
  function, in the order of the source, with the values the line shows. The names are the
  failure names of the specification.
\<close>

datatype message =
    NotExists string
  | TooSmall string
  | TrailerReadError string
  | InvalidMaskLength int int
  | InvalidHeaderOffset int
  | HeaderReadError string
  | DecryptError string exn

text \<open>
  The file object \<open>f\<close> of \<open>open(file_path, 'rb+')\<close>: the bytes of the file, the stream
  position, the lines printed so far and the log of the calls made on \<open>f\<close>.
\<close>

datatype whence = SEEK_SET | SEEK_END

datatype io_op = Seek int whence | Read int | Write bytes | Truncate int

record io_state =
  content :: bytes
  pos :: nat
  printed :: "message list"
  ops :: "io_op list"

type_synonym 'a io = "io_state \<Rightarrow> (exn + 'a) \<times> io_state"

definition io_return :: "'a \<Rightarrow> 'a io" where
  "io_return x s = (Inr x, s)"

definition io_bind :: "'a io \<Rightarrow> ('a \<Rightarrow> 'b io) \<Rightarrow> 'b io" where
  "io_bind m k s = (case m s of (Inl e, s') \<Rightarrow> (Inl e, s') | (Inr x, s') \<Rightarrow> k x s')"

definition io_lift :: "exn + 'a \<Rightarrow> 'a io" where
  "io_lift r s = (r, s)"

definition print :: "message \<Rightarrow> unit io" where
  "print m s = (Inr (), s\<lparr>printed := printed s @ [m]\<rparr>)"

text \<open>\<open>f.seek(offset, whence)\<close>: a position before the start of the file raises.\<close>

definition f_seek :: "int \<Rightarrow> whence \<Rightarrow> unit io" where
  "f_seek offset wh s =
     (let target = (case wh of SEEK_SET \<Rightarrow> offset
                             | SEEK_END \<Rightarrow> int (length (content s)) + offset);
          s' = s\<lparr>ops := ops s @ [Seek offset wh]\<rparr>
      in if target < 0 then (Inl OSError, s')
         else (Inr (), s'\<lparr>pos := nat target\<rparr>))"

text \<open>
  \<open>f.read(n)\<close>: at most \<open>n\<close> bytes from the position (all the rest when \<open>n\<close> is
  negative); the position moves past what was read.
\<close>

definition f_read :: "int \<Rightarrow> bytes io" where
  "f_read n s =
     (let rest = drop (pos s) (content s);
          data = (if n < 0 then rest else take (nat n) rest)
      in (Inr data, s\<lparr>pos := pos s + length data, ops := ops s @ [Read n]\<rparr>))"

text \<open>
  \<open>f.write(data)\<close>: overwrites from the position, growing the file when the data reach
  past its end (a gap before the position is filled with zero bytes).
\<close>

definition f_write :: "bytes \<Rightarrow> nat io" where
  "f_write data s =
     (let c = content s; p = pos s;
          c' = take p c @ replicate (p - length c) 0 @ data @ drop (p + length data) c
      in (Inr (length data),
          s\<lparr>content := c', pos := p + length data, ops := ops s @ [Write data]\<rparr>))"

text \<open>
  \<open>f.truncate(n)\<close>: the file becomes \<open>n\<close> bytes long (cut, or padded with zero
  bytes); a negative size raises; the position stays.
\<close>

definition f_truncate :: "int \<Rightarrow> int io" where
  "f_truncate n s =
     (let s' = s\<lparr>ops := ops s @ [Truncate n]\<rparr>
      in if n < 0 then (Inl OSError, s')
         else (Inr n,
               s'\<lparr>content := take (nat n) (content s)
                             @ replicate (nat n - length (content s)) 0\<rparr>))"

section \<open>reveal_file\<close>

text \<open>The body of the \<open>with open(file_path, 'rb+') as f\<close> block, line by line.\<close>

definition with_block :: "string \<Rightarrow> int \<Rightarrow> bool io" where
  "with_block file_path file_size =
     io_bind (f_seek (- mask_length_indicator_length) SEEK_END) (\<lambda>_.
     io_bind (f_read mask_length_indicator_length) (\<lambda>mask_length_bytes.
     if int (length mask_length_bytes) \<noteq> mask_length_indicator_length then
       io_bind (print (TrailerReadError file_path)) (\<lambda>_. io_return False)
     else
     io_bind (io_lift (bytes_to_int mask_length_bytes)) (\<lambda>mask_head_length.
     if mask_head_length \<le> 0
        \<or> mask_head_length \<ge> file_size - mask_length_indicator_length then
       io_bind (print (InvalidMaskLength mask_head_length file_size)) (\<lambda>_. io_return False)
     else
     let original_head_position =
           file_size - mask_length_indicator_length - mask_head_length in
     if original_head_position < 0 \<or> original_head_position \<ge> file_size then
       io_bind (print (InvalidHeaderOffset original_head_position)) (\<lambda>_. io_return False)
     else
     io_bind (f_seek original_head_position SEEK_SET) (\<lambda>_.
     io_bind (f_read mask_head_length) (\<lambda>original_head.
     if int (length original_head) \<noteq> mask_head_length then
       io_bind (print (HeaderReadError file_path)) (\<lambda>_. io_return False)
     else
     let new_file_size = file_size - mask_head_length - mask_length_indicator_length in
     io_bind (f_seek 0 SEEK_SET) (\<lambda>_.
     io_bind (f_write (reverse_byte_array original_head)) (\<lambda>_.
     io_bind (f_truncate new_file_size) (\<lambda>_.
     io_return True))))))))"

text \<open>
  The file system holds the regular files: a map from path strings to their bytes (two
  strings that name one file are not modelled, nor are directories and permissions).
  \<open>reveal_file\<close> returns its boolean, the lines it printed, the calls it made on the file
  object, and the file system afterwards. An exception raised inside \<open>try\<close> is caught by
  \<open>except Exception\<close>, which prints a line and returns \<open>False\<close>; the \<open>with\<close> block has
  closed the file by then, so what was written stays written.
\<close>

type_synonym filesystem = "string \<rightharpoonup> bytes"

record outcome =
  returned :: bool
  stdout :: "message list"
  calls :: "io_op list"
  files :: filesystem

definition reveal_file :: "string \<Rightarrow> filesystem \<Rightarrow> outcome" where
  "reveal_file file_path fs =
     (case fs file_path of
        None \<Rightarrow>
          \<lparr>returned = False, stdout = [NotExists file_path], calls = [], files = fs\<rparr>
      | Some data \<Rightarrow>
          let file_size = int (length data) in
          if file_size \<le> mask_length_indicator_length then
            \<lparr>returned = False, stdout = [TooSmall file_path], calls = [], files = fs\<rparr>
          else
            (case with_block file_path file_size
                    \<lparr>content = data, pos = 0, printed = [], ops = []\<rparr> of
               (Inr b, s) \<Rightarrow>
                 \<lparr>returned = b, stdout = printed s, calls = ops s,
                  files = fs(file_path \<mapsto> content s)\<rparr>
             | (Inl e, s) \<Rightarrow>
                 \<lparr>returned = False, stdout = printed s @ [DecryptError file_path e],
                  calls = ops s, files = fs(file_path \<mapsto> content s)\<rparr>))"

section \<open>Vocabulary of the properties\<close>

text \<open>The trailer of a file: its last four bytes.\<close>

definition trailer :: "bytes \<Rightarrow> bytes" where
  "trailer data = drop (length data - 4) data"

text \<open>The disguised header of a file whose trailer gives the mask length \<open>m\<close>.\<close>

definition disguised_header :: "bytes \<Rightarrow> nat \<Rightarrow> bytes" where
  "disguised_header data m = take m (drop (length data - 4 - m) data)"

text \<open>
  Modelled from the spec: the forward masking is not part of the program; its trailer
  \<open>littleEndian32(L)\<close> is the four bytes of \<open>L\<close>, least significant first.
\<close>

definition littleEndian32 :: "int \<Rightarrow> bytes" where
  "littleEndian32 n =
     [word_of_int n, word_of_int (n div 256), word_of_int (n div 65536),
      word_of_int (n div 16777216)]"

text \<open>The printed lines that report a validation failure.\<close>

fun validation_failure :: "message \<Rightarrow> bool" where
  "validation_failure (TooSmall _) = True"
| "validation_failure (TrailerReadError _) = True"
| "validation_failure (InvalidMaskLength _ _) = True"
| "validation_failure (InvalidHeaderOffset _) = True"
| "validation_failure (HeaderReadError _) = True"
| "validation_failure (NotExists _) = False"
| "validation_failure (DecryptError _ _) = False"

text \<open>The calls on the file object that change the file.\<close>

fun mutating :: "io_op \<Rightarrow> bool" where
  "mutating (Write _) = True"
| "mutating (Truncate _) = True"
| "mutating (Seek _ _) = False"
| "mutating (Read _) = False"

section \<open>remove_mp4_extension\<close>
















section \<open>Running reveal_file\<close>

lemma uint_byte_bounds: "0 \<le> uint (w :: byte) \<and> uint w \<le> 255"
  using uint_lt2p [of w] by simp

lemma bytes_to_int_range:
  assumes "length bs = 4"
  shows "\<exists>m. bytes_to_int bs = Inr m \<and> 0 \<le> m \<and> m < 2 ^ 32"
proof -
  have "0 \<le> uint (bs ! 0) \<and> uint (bs ! 0) \<le> 255" "0 \<le> uint (bs ! 1) \<and> uint (bs ! 1) \<le> 255"
    "0 \<le> uint (bs ! 2) \<and> uint (bs ! 2) \<le> 255" "0 \<le> uint (bs ! 3) \<and> uint (bs ! 3) \<le> 255"
    by (rule uint_byte_bounds)+
  then show ?thesis using assms by (simp add: bytes_to_int_def)
qed

lemma length_trailer: "4 \<le> length data \<Longrightarrow> length (trailer data) = 4"
  by (simp add: trailer_def)

lemma trailer_append: "length t = 4 \<Longrightarrow> trailer (xs @ t) = t"
  by (simp add: trailer_def)

lemma bytes_to_int_littleEndian32:
  assumes "0 \<le> n" "n < 2 ^ 32"
  shows "bytes_to_int (littleEndian32 n) = Inr n"
proof -
  have u: "\<And>k. uint (word_of_int k :: byte) = k mod 256"
    by (simp add: uint_word_of_int)
  define a where "a = n div 256"
  define b where "b = a div 256"
  define c where "c = b div 256"
  have n: "n = 256 * a + n mod 256" unfolding a_def by simp
  have a: "a = 256 * b + a mod 256" unfolding b_def by simp
  have b: "b = 256 * c + b mod 256" unfolding c_def by simp
  have nb: "n div 65536 = b"
    unfolding b_def a_def using zdiv_zmult2_eq [of 256 n 256] by simp
  have nc: "n div 16777216 = c"
    unfolding c_def using zdiv_zmult2_eq [of 256 n 65536] nb by simp
  have "c < 256" "0 \<le> c" using assms nc by simp_all
  then have c: "c mod 256 = c" by simp
  have "n mod 256 + 256 * (a mod 256) + 65536 * (b mod 256) + 16777216 * c = n"
    using n a b by linarith
  then show ?thesis
    by (simp add: bytes_to_int_def littleEndian32_def u nb nc c a_def [symmetric])
qed

lemma with_block_run:
  assumes len: "4 < length data"
    and dec: "bytes_to_int (trailer data) = Inr m"
  shows "with_block p (int (length data)) \<lparr>content = data, pos = 0, printed = [], ops = []\<rparr> =
     (if m \<le> 0 \<or> m \<ge> int (length data) - 4 then
        (Inr False, \<lparr>content = data, pos = length data,
                     printed = [InvalidMaskLength m (int (length data))],
                     ops = [Seek (- 4) SEEK_END, Read 4]\<rparr>)
      else
        (Inr True,
         \<lparr>content = take (length data - nat m - 4)
                       (rev (disguised_header data (nat m)) @ drop (nat m) data),
          pos = nat m, printed = [],
          ops = [Seek (- 4) SEEK_END, Read 4, Seek (int (length data) - 4 - m) SEEK_SET, Read m,
                 Seek 0 SEEK_SET,
                 Write (rev (disguised_header data (nat m))),
                 Truncate (int (length data) - m - 4)]\<rparr>))"
proof -
  let ?n = "length data"
  let ?s0 = "\<lparr>content = data, pos = 0, printed = [], ops = []\<rparr>"
  let ?s1 = "\<lparr>content = data, pos = ?n - 4, printed = [], ops = [Seek (- 4) SEEK_END]\<rparr>"
  let ?s2 = "\<lparr>content = data, pos = ?n, printed = [], ops = [Seek (- 4) SEEK_END, Read 4]\<rparr>"
  have e1: "f_seek (- 4) SEEK_END ?s0 = (Inr (), ?s1)"
    using len by (simp add: f_seek_def nat_diff_distrib')
  have e2: "f_read 4 ?s1 = (Inr (trailer data), ?s2)"
    using len by (simp add: f_read_def trailer_def)
  have l4: "length (trailer data) = 4"
    using len by (simp add: trailer_def)
  show ?thesis
  proof (cases "m \<le> 0 \<or> m \<ge> int ?n - 4")
    case True
    have e3: "print (InvalidMaskLength m (int ?n)) ?s2
              = (Inr (), ?s2\<lparr>printed := [InvalidMaskLength m (int ?n)]\<rparr>)"
      by (simp add: print_def)
    from True show ?thesis
      by (simp add: with_block_def mask_length_indicator_length_def io_bind_def io_lift_def
          io_return_def e1 e2 e3 l4 dec)
  next
    case False
    then have m: "0 < m" "m < int ?n - 4" by simp_all
    define k where "k = nat m"
    define off where "off = ?n - 4 - k"
    have mk: "m = int k" and k: "0 < k" "k + 4 < ?n" "off + k + 4 = ?n"
      using m by (simp_all add: k_def off_def)
    let ?hdr = "disguised_header data k"
    let ?s3 = "\<lparr>content = data, pos = off, printed = [],
               ops = [Seek (- 4) SEEK_END, Read 4, Seek (int ?n - 4 - m) SEEK_SET]\<rparr>"
    let ?s4 = "\<lparr>content = data, pos = off + k, printed = [],
               ops = [Seek (- 4) SEEK_END, Read 4, Seek (int ?n - 4 - m) SEEK_SET, Read m]\<rparr>"
    let ?s5 = "\<lparr>content = data, pos = 0, printed = [],
               ops = [Seek (- 4) SEEK_END, Read 4, Seek (int ?n - 4 - m) SEEK_SET, Read m,
                      Seek 0 SEEK_SET]\<rparr>"
    let ?s6 = "\<lparr>content = rev ?hdr @ drop k data, pos = k, printed = [],
               ops = [Seek (- 4) SEEK_END, Read 4, Seek (int ?n - 4 - m) SEEK_SET, Read m,
                      Seek 0 SEEK_SET, Write (rev ?hdr)]\<rparr>"
    let ?s7 = "\<lparr>content = take (?n - k - 4) (rev ?hdr @ drop k data), pos = k, printed = [],
               ops = [Seek (- 4) SEEK_END, Read 4, Seek (int ?n - 4 - m) SEEK_SET, Read m,
                      Seek 0 SEEK_SET, Write (rev ?hdr), Truncate (int ?n - m - 4)]\<rparr>"
    have lh: "length ?hdr = k"
      using k by (simp add: disguised_header_def off_def)
    have e3: "f_seek (int ?n - 4 - m) SEEK_SET ?s2 = (Inr (), ?s3)"
      using k by (simp add: f_seek_def mk off_def nat_diff_distrib')
    have e4: "f_read m ?s3 = (Inr ?hdr, ?s4)"
      using k lh by (simp add: f_read_def mk disguised_header_def off_def)
    have e5: "f_seek 0 SEEK_SET ?s4 = (Inr (), ?s5)"
      by (simp add: f_seek_def)
    have e6: "f_write (reverse_byte_array ?hdr) ?s5 = (Inr k, ?s6)"
      using lh by (simp add: f_write_def reverse_byte_array_def)
    have e7: "f_truncate (int ?n - m - 4) ?s6 = (Inr (int ?n - m - 4), ?s7)"
      using k lh by (simp add: f_truncate_def mk nat_diff_distrib')
    from False show ?thesis
      by (simp add: with_block_def mask_length_indicator_length_def io_bind_def io_lift_def
          io_return_def e1 e2 l4 dec e3 e4 lh e5 e6 e7 k_def [symmetric] mk [symmetric])
  qed
qed

lemma reveal_file_run:
  assumes fs: "fs p = Some data"
    and len: "4 < length data"
    and dec: "bytes_to_int (trailer data) = Inr m"
  shows "reveal_file p fs =
     (if m \<le> 0 \<or> m \<ge> int (length data) - 4 then
        \<lparr>returned = False, stdout = [InvalidMaskLength m (int (length data))],
         calls = [Seek (- 4) SEEK_END, Read 4], files = fs\<rparr>
      else
        \<lparr>returned = True, stdout = [],
         calls = [Seek (- 4) SEEK_END, Read 4, Seek (int (length data) - 4 - m) SEEK_SET, Read m,
                  Seek 0 SEEK_SET,
                  Write (rev (disguised_header data (nat m))),
                  Truncate (int (length data) - m - 4)],
         files = fs(p \<mapsto> take (length data - nat m - 4)
                       (rev (disguised_header data (nat m)) @ drop (nat m) data))\<rparr>)"
proof -
  have same: "fs(p \<mapsto> data) = fs" using fs by (simp add: map_upd_triv)
  show ?thesis
    using fs len same
    by (simp add: reveal_file_def mask_length_indicator_length_def Let_def
        with_block_run [OF len dec])
qed

text \<open>Every run of \<open>reveal_file\<close> is one of four: no file, a file of at most four bytes,
  a rejected mask length, or a restored file.\<close>

lemma reveal_file_cases:
  obtains (missing) "fs p = None"
      "reveal_file p fs = \<lparr>returned = False, stdout = [NotExists p], calls = [], files = fs\<rparr>"
    | (small) data where "fs p = Some data" "length data \<le> 4"
      "reveal_file p fs = \<lparr>returned = False, stdout = [TooSmall p], calls = [], files = fs\<rparr>"
    | (invalid) data m where "fs p = Some data" "4 < length data"
      "bytes_to_int (trailer data) = Inr m" "m = 0 \<or> m \<ge> int (length data) - 4"
      "reveal_file p fs =
         \<lparr>returned = False, stdout = [InvalidMaskLength m (int (length data))],
          calls = [Seek (- 4) SEEK_END, Read 4], files = fs\<rparr>"
    | (restored) data m where "fs p = Some data" "4 < length data"
      "bytes_to_int (trailer data) = Inr m" "0 < m" "m < int (length data) - 4"
      "reveal_file p fs =
         \<lparr>returned = True, stdout = [],
          calls = [Seek (- 4) SEEK_END, Read 4, Seek (int (length data) - 4 - m) SEEK_SET,
                   Read m, Seek 0 SEEK_SET, Write (rev (disguised_header data (nat m))),
                   Truncate (int (length data) - m - 4)],
          files = fs(p \<mapsto> take (length data - nat m - 4)
                        (rev (disguised_header data (nat m)) @ drop (nat m) data))\<rparr>"
proof (cases "fs p")
  case None
  then show ?thesis using missing by (simp add: reveal_file_def)
next
  case (Some data)
  show ?thesis
  proof (cases "length data \<le> 4")
    case True
    with Some show ?thesis
      using small by (simp add: reveal_file_def mask_length_indicator_length_def)
  next
    case False
    then have len: "4 < length data" by simp
    then obtain m where m: "bytes_to_int (trailer data) = Inr m" "0 \<le> m"
      using bytes_to_int_range [of "trailer data"] length_trailer [of data] by auto
    show ?thesis
    proof (cases "m = 0 \<or> m \<ge> int (length data) - 4")
      case True
      then show ?thesis
        using invalid [OF Some len m(1) True] reveal_file_run [of fs p data m, OF Some len m(1)] by auto
    next
      case False
      then have "0 < m" "m < int (length data) - 4" using m(2) by simp_all
      then show ?thesis
        using restored [OF Some len m(1)] reveal_file_run [of fs p data m, OF Some len m(1)] by auto
    qed
  qed
qed

text \<open>
  Inside the block, whatever the state of the file object and whatever size was read
  before opening: a run that does not end in \<open>return True\<close> leaves the bytes as they
  were and adds no write and no truncate to the calls, and no run prints the
  invalid-header-position line.
\<close>

lemma with_block_paths:
  assumes "with_block p n s = (r, s')"
  shows "r \<noteq> Inr True \<longrightarrow>
           content s' = content s \<and> filter mutating (ops s') = filter mutating (ops s)"
    and "InvalidHeaderOffset k \<in> set (printed s') \<longrightarrow> InvalidHeaderOffset k \<in> set (printed s)"
  using assms
  by (auto simp: with_block_def io_bind_def io_return_def io_lift_def print_def f_seek_def
      f_read_def f_write_def f_truncate_def Let_def mask_length_indicator_length_def
      split: if_splits sum.splits prod.splits)

section \<open>Missing and short files\<close>

text \<open>
  C10: when the path names no file, \<open>reveal_file\<close> returns \<open>False\<close> after printing that
  the file does not exist; no exception is raised inside the \<open>try\<close>, no call is made on a
  file object, and the file system is the same afterwards, so no file was created.
\<close>

theorem reveal_file_missing:
  assumes "fs p = None"
  shows "reveal_file p fs =
           \<lparr>returned = False, stdout = [NotExists p], calls = [], files = fs\<rparr>"
  using assms by (simp add: reveal_file_def)

theorem reveal_file_missing_witness:
  "Map.empty ''ghost.mp4'' = (None :: bytes option)
   \<and> reveal_file ''ghost.mp4'' Map.empty =
       \<lparr>returned = False, stdout = [NotExists ''ghost.mp4''], calls = [], files = Map.empty\<rparr>"
  using reveal_file_missing [of Map.empty "''ghost.mp4''"] by simp

text \<open>
  C5: an existing file of at most four bytes is rejected as too small: \<open>reveal_file\<close>
  returns \<open>False\<close>, makes no call on a file object (the trailer is not read) and leaves
  the file system as it was. Only a file of more than four bytes gets past this check: it
  is never reported as too small, and its trailer is read.
\<close>

theorem reveal_file_too_small:
  assumes "fs p = Some data"
  shows "(length data \<le> 4 \<longrightarrow>
            reveal_file p fs =
              \<lparr>returned = False, stdout = [TooSmall p], calls = [], files = fs\<rparr>)
       \<and> (4 < length data \<longrightarrow>
            TooSmall p \<notin> set (stdout (reveal_file p fs))
            \<and> take 2 (calls (reveal_file p fs)) = [Seek (- 4) SEEK_END, Read 4])"
  using assms by (cases p fs rule: reveal_file_cases) auto

theorem reveal_file_too_small_witness:
  "reveal_file ''a.mp4'' [''a.mp4'' \<mapsto> [1, 2, 3, 4]] =
     \<lparr>returned = False, stdout = [TooSmall ''a.mp4''], calls = [],
      files = [''a.mp4'' \<mapsto> [1, 2, 3, 4]]\<rparr>
   \<and> TooSmall ''a.mp4'' \<notin> set (stdout (reveal_file ''a.mp4'' [''a.mp4'' \<mapsto> [1, 2, 3, 4, 5]]))"
  using reveal_file_too_small [of "[''a.mp4'' \<mapsto> [1, 2, 3, 4]]" "''a.mp4''" "[1, 2, 3, 4]"]
    reveal_file_too_small [of "[''a.mp4'' \<mapsto> [1, 2, 3, 4, 5]]" "''a.mp4''" "[1, 2, 3, 4, 5]"]
  by simp

section \<open>Validation of the mask length\<close>

text \<open>
  C4: a file of more than four bytes whose trailer decodes to \<open>m\<close> with \<open>m = 0\<close> or
  \<open>m \<ge> fileSize - 4\<close> is rejected with the invalid-mask-length line, after the trailer
  has been read and nothing else; the file system is unchanged. So a five-byte file with
  trailer 0 fails, and every file whose trailer decodes to \<open>fileSize - 4\<close> fails.
\<close>

theorem reveal_file_invalid_mask_length:
  assumes "fs p = Some data" and "bytes_to_int (trailer data) = Inr m"
  shows "(4 < length data \<and> (m = 0 \<or> m \<ge> int (length data) - 4) \<longrightarrow>
            reveal_file p fs =
              \<lparr>returned = False, stdout = [InvalidMaskLength m (int (length data))],
               calls = [Seek (- 4) SEEK_END, Read 4], files = fs\<rparr>)
       \<and> (m = int (length data) - 4 \<longrightarrow>
            \<not> returned (reveal_file p fs) \<and> files (reveal_file p fs) = fs)"
  using assms by (cases p fs rule: reveal_file_cases) auto

theorem reveal_file_invalid_mask_length_witness:
  "reveal_file ''a.mp4'' [''a.mp4'' \<mapsto> [7, 0, 0, 0, 0]] =
     \<lparr>returned = False, stdout = [InvalidMaskLength 0 5],
      calls = [Seek (- 4) SEEK_END, Read 4], files = [''a.mp4'' \<mapsto> [7, 0, 0, 0, 0]]\<rparr>
   \<and> \<not> returned (reveal_file ''b.mp4'' [''b.mp4'' \<mapsto> [7, 8, 9, 3, 0, 0, 0]])"
  using reveal_file_invalid_mask_length
      [of "[''a.mp4'' \<mapsto> [7, 0, 0, 0, 0]]" "''a.mp4''" "[7, 0, 0, 0, 0]" 0]
    reveal_file_invalid_mask_length
      [of "[''b.mp4'' \<mapsto> [7, 8, 9, 3, 0, 0, 0]]" "''b.mp4''" "[7, 8, 9, 3, 0, 0, 0]" 3]
  by (simp add: bytes_to_int_def trailer_def)

text \<open>
  C7: when the mask length has passed its validation, \<open>0 < m < fileSize - 4\<close>, the
  position of the header \<open>fileSize - 4 - m\<close> lies in \<open>[0, fileSize)\<close>; so no run of
  \<open>reveal_file\<close> prints the invalid-header-position line, and neither does the block
  from any state of the file object and for any \<open>file_size\<close>.
\<close>

theorem invalid_header_offset_unreachable:
  "(0 < m \<and> m < file_size - mask_length_indicator_length \<longrightarrow>
      0 \<le> file_size - mask_length_indicator_length - m
      \<and> file_size - mask_length_indicator_length - m < file_size)
   \<and> InvalidHeaderOffset k \<notin> set (stdout (reveal_file p fs))
   \<and> (with_block p n s = (r, s') \<and> InvalidHeaderOffset k \<notin> set (printed s) \<longrightarrow>
        InvalidHeaderOffset k \<notin> set (printed s'))"
proof (intro conjI impI)
  assume "0 < m \<and> m < file_size - mask_length_indicator_length"
  then show "0 \<le> file_size - mask_length_indicator_length - m"
    and "file_size - mask_length_indicator_length - m < file_size"
    by (simp_all add: mask_length_indicator_length_def)
next
  show "InvalidHeaderOffset k \<notin> set (stdout (reveal_file p fs))"
    by (cases p fs rule: reveal_file_cases) auto
next
  assume "with_block p n s = (r, s') \<and> InvalidHeaderOffset k \<notin> set (printed s)"
  then show "InvalidHeaderOffset k \<notin> set (printed s')"
    using with_block_paths(2) [of p n s r s' k] by blast
qed

theorem invalid_header_offset_unreachable_witness:
  "(0 < (3 :: int) \<and> (3 :: int) < 9 - mask_length_indicator_length)
   \<and> (0 :: int) \<le> 9 - mask_length_indicator_length - 3
   \<and> 9 - mask_length_indicator_length - 3 < (9 :: int)
   \<and> InvalidHeaderOffset 2 \<notin>
       set (stdout (reveal_file ''a.mp4'' [''a.mp4'' \<mapsto> [9, 9, 3, 2, 1, 3, 0, 0, 0]]))
   \<and> InvalidHeaderOffset 2 \<notin>
       set (printed (snd (with_block ''a.mp4'' 9
              \<lparr>content = [9, 9, 3, 2, 1, 3, 0, 0, 0], pos = 0, printed = [], ops = []\<rparr>)))"
  using invalid_header_offset_unreachable
      [of 3 9 2 "''a.mp4''" "[''a.mp4'' \<mapsto> [9, 9, 3, 2, 1, 3, 0, 0, 0]]" 9
        "\<lparr>content = [9, 9, 3, 2, 1, 3, 0, 0, 0], pos = 0, printed = [], ops = []\<rparr>"
        "fst (with_block ''a.mp4'' 9
              \<lparr>content = [9, 9, 3, 2, 1, 3, 0, 0, 0], pos = 0, printed = [], ops = []\<rparr>)"
        "snd (with_block ''a.mp4'' 9
              \<lparr>content = [9, 9, 3, 2, 1, 3, 0, 0, 0], pos = 0, printed = [], ops = []\<rparr>)"]
  by (simp add: mask_length_indicator_length_def)

text \<open>
  C6: whenever \<open>reveal_file\<close> reports a validation failure (too small, trailer not read,
  invalid mask length, invalid header position, header not read), the file system after
  the call is the one before it, so the file has the same bytes and the same size, and
  none of the calls made on the file object is a write or a truncate. The same holds
  branch by branch inside the block: from any state of the file object and for any
  \<open>file_size\<close>, a run that ends otherwise than by \<open>return True\<close> has changed no byte and
  made no write or truncate.
\<close>

theorem reveal_file_rejection_leaves_file:
  "((\<exists>x \<in> set (stdout (reveal_file p fs)). validation_failure x) \<longrightarrow>
      files (reveal_file p fs) = fs
      \<and> (\<forall>c \<in> set (calls (reveal_file p fs)). \<not> mutating c))
   \<and> (with_block p n s = (r, s') \<and> r \<noteq> Inr True \<longrightarrow>
        content s' = content s \<and> filter mutating (ops s') = filter mutating (ops s))"
proof (intro conjI impI)
  assume "\<exists>x \<in> set (stdout (reveal_file p fs)). validation_failure x"
  then show "files (reveal_file p fs) = fs"
    and "\<forall>c \<in> set (calls (reveal_file p fs)). \<not> mutating c"
    by (cases p fs rule: reveal_file_cases; auto)+
next
  assume "with_block p n s = (r, s') \<and> r \<noteq> Inr True"
  then show "content s' = content s" and "filter mutating (ops s') = filter mutating (ops s)"
    using with_block_paths(1) [of p n s r s'] by simp_all
qed

theorem reveal_file_rejection_leaves_file_witness:
  "(\<exists>x \<in> set (stdout (reveal_file ''a.mp4'' [''a.mp4'' \<mapsto> [7, 8, 9, 3, 0, 0, 0]])).
      validation_failure x)
   \<and> files (reveal_file ''a.mp4'' [''a.mp4'' \<mapsto> [7, 8, 9, 3, 0, 0, 0]])
       = [''a.mp4'' \<mapsto> [7, 8, 9, 3, 0, 0, 0]]
   \<and> list_all (\<lambda>c. \<not> mutating c)
        (calls (reveal_file ''a.mp4'' [''a.mp4'' \<mapsto> [7, 8, 9, 3, 0, 0, 0]]))
   \<and> fst (with_block ''a.mp4'' 100 \<lparr>content = [1, 0, 0, 0], pos = 0, printed = [], ops = []\<rparr>)
       = Inr False
   \<and> printed (snd (with_block ''a.mp4'' 100
                      \<lparr>content = [1, 0, 0, 0], pos = 0, printed = [], ops = []\<rparr>))
       = [HeaderReadError ''a.mp4'']
   \<and> content (snd (with_block ''a.mp4'' 100
                      \<lparr>content = [1, 0, 0, 0], pos = 0, printed = [], ops = []\<rparr>))
       = [1, 0, 0, 0]"
proof -
  let ?fs = "[''a.mp4'' \<mapsto> [7, 8, 9, 3, 0, 0, 0 :: byte]]"
  let ?s = "\<lparr>content = [1, 0, 0, 0 :: byte], pos = 0, printed = [], ops = []\<rparr>"
  have r: "reveal_file ''a.mp4'' ?fs =
     \<lparr>returned = False, stdout = [InvalidMaskLength 3 7],
      calls = [Seek (- 4) SEEK_END, Read 4], files = ?fs\<rparr>"
    using reveal_file_run [of ?fs "''a.mp4''" "[7, 8, 9, 3, 0, 0, 0]" 3]
    by (simp add: bytes_to_int_def trailer_def)
  then have h: "\<exists>x \<in> set (stdout (reveal_file ''a.mp4'' ?fs)). validation_failure x"
    by simp
  have w: "with_block ''a.mp4'' 100 ?s =
     (Inr False, \<lparr>content = [1, 0, 0, 0], pos = 95, printed = [HeaderReadError ''a.mp4''],
                  ops = [Seek (- 4) SEEK_END, Read 4, Seek 95 SEEK_SET, Read 1]\<rparr>)"
    by (simp add: with_block_def io_bind_def io_return_def io_lift_def print_def f_seek_def
        f_read_def Let_def mask_length_indicator_length_def bytes_to_int_def)
  show ?thesis
    using h w
      reveal_file_rejection_leaves_file [of "''a.mp4''" ?fs 100 ?s
        "fst (with_block ''a.mp4'' 100 ?s)" "snd (with_block ''a.mp4'' 100 ?s)"]
    by (simp add: list_all_iff)
qed

section \<open>Restoring a masked file\<close>

text \<open>
  C3: when the trailer of a file decodes to \<open>m\<close> with \<open>0 < m < fileSize - 4\<close>,
  \<open>reveal_file\<close> returns \<open>True\<close> and the file becomes \<open>fileSize - m - 4\<close> bytes long.
  Its first \<open>m\<close> bytes are the reversed disguised header cut to the new length; they
  are the whole reversed header when \<open>2 * m + 4 \<le> fileSize\<close>. Every byte from offset
  \<open>m\<close> up to the new length is the byte the file had there before.
\<close>

theorem reveal_file_success:
  assumes "fs p = Some data" and "bytes_to_int (trailer data) = Inr m"
    and "0 < m" and "m < int (length data) - 4"
  shows "\<exists>restored.
           returned (reveal_file p fs)
         \<and> files (reveal_file p fs) = fs(p \<mapsto> restored)
         \<and> int (length restored) = int (length data) - m - 4
         \<and> take (nat m) restored
             = take (length data - nat m - 4)
                 (reverse_byte_array (disguised_header data (nat m)))
         \<and> (2 * m + 4 \<le> int (length data) \<longrightarrow>
              take (nat m) restored = reverse_byte_array (disguised_header data (nat m)))
         \<and> (\<forall>i. nat m \<le> i \<and> i < length data - nat m - 4 \<longrightarrow> restored ! i = data ! i)"
proof -
  define k where "k = nat m"
  define hdr where "hdr = disguised_header data k"
  define restored where "restored = take (length data - k - 4) (rev hdr @ drop k data)"
  have len: "4 < length data" and k: "0 < k" "k + 4 < length data" "m = int k"
    using assms(3,4) by (simp_all add: k_def)
  have lh: "length hdr = k"
    using k by (simp add: hdr_def disguised_header_def)
  have r: "reveal_file p fs =
     \<lparr>returned = True, stdout = [],
      calls = [Seek (- 4) SEEK_END, Read 4, Seek (int (length data) - 4 - m) SEEK_SET,
               Read m, Seek 0 SEEK_SET, Write (rev hdr), Truncate (int (length data) - m - 4)],
      files = fs(p \<mapsto> restored)\<rparr>"
    using reveal_file_run [of fs p data m, OF assms(1) len assms(2)] assms(3,4)
    by (simp add: restored_def hdr_def k_def)
  have l: "int (length restored) = int (length data) - m - 4"
    using k lh by (simp add: restored_def)
  have t: "take k restored = take (length data - k - 4) (rev hdr)"
    using lh by (simp add: restored_def min_def)
  have t': "2 * m + 4 \<le> int (length data) \<longrightarrow> take k restored = rev hdr"
    using lh k t by simp
  have u: "\<forall>i. k \<le> i \<and> i < length data - k - 4 \<longrightarrow> restored ! i = data ! i"
    using lh k by (auto simp: restored_def nth_append)
  show ?thesis
    using r l t t' u by (auto simp: reverse_byte_array_def hdr_def k_def)
qed

theorem reveal_file_success_witness:
  "(0 :: int) < 2 \<and> (2 :: int) < int (length [0xAA, 0xBB, 0xCC, 2, 1, 2, 0, 0, 0 :: byte]) - 4
   \<and> (\<exists>restored.
         returned (reveal_file ''a.mp4'' [''a.mp4'' \<mapsto> [0xAA, 0xBB, 0xCC, 2, 1, 2, 0, 0, 0]])
       \<and> files (reveal_file ''a.mp4'' [''a.mp4'' \<mapsto> [0xAA, 0xBB, 0xCC, 2, 1, 2, 0, 0, 0]])
           = [''a.mp4'' \<mapsto> restored]
       \<and> length restored = 3 \<and> take 2 restored = [1, 2] \<and> restored ! 2 = 0xCC)"
proof -
  let ?data = "[0xAA, 0xBB, 0xCC, 2, 1, 2, 0, 0, 0] :: bytes"
  have d: "bytes_to_int (trailer ?data) = Inr 2"
    by (simp add: bytes_to_int_def trailer_def)
  have f: "[''a.mp4'' \<mapsto> ?data] ''a.mp4'' = Some ?data" by simp
  obtain restored where
    r: "returned (reveal_file ''a.mp4'' [''a.mp4'' \<mapsto> ?data])"
      "files (reveal_file ''a.mp4'' [''a.mp4'' \<mapsto> ?data]) = [''a.mp4'' \<mapsto> ?data, ''a.mp4'' \<mapsto> restored]"
      "int (length restored) = int (length ?data) - 2 - 4"
      "2 * 2 + 4 \<le> int (length ?data) \<longrightarrow>
         take (nat 2) restored = reverse_byte_array (disguised_header ?data (nat 2))"
      "\<forall>i. nat 2 \<le> i \<and> i < length ?data - nat 2 - 4 \<longrightarrow> restored ! i = ?data ! i"
    using reveal_file_success [of "[''a.mp4'' \<mapsto> ?data]" "''a.mp4''" ?data 2, OF f d] by auto
  have "restored ! 2 = ?data ! 2" using r(5) by simp
  then show ?thesis
    using r(1-4) by (auto simp: reverse_byte_array_def disguised_header_def)
qed

text \<open>
  A file of seven bytes with mask length 2: the new size is 1, so only the first byte of
  the reversed header is left.
\<close>

theorem reveal_file_success_counterexample:
  "bytes_to_int (trailer [7, 0x0B, 0x0A, 2, 0, 0, 0]) = Inr 2
   \<and> (0 :: int) < 2 \<and> (2 :: int) < int (length [7, 0x0B, 0x0A, 2, 0, 0, 0 :: byte]) - 4
   \<and> files (reveal_file ''a.mp4'' [''a.mp4'' \<mapsto> [7, 0x0B, 0x0A, 2, 0, 0, 0]]) ''a.mp4''
       = Some [0x0A]
   \<and> take 2 [0x0A] \<noteq> reverse_byte_array (disguised_header [7, 0x0B, 0x0A, 2, 0, 0, 0] 2)"
  using reveal_file_run [of "[''a.mp4'' \<mapsto> [7, 0x0B, 0x0A, 2, 0, 0, 0]]" "''a.mp4''"
      "[7, 0x0B, 0x0A, 2, 0, 0, 0]" 2]
  by (simp add: bytes_to_int_def trailer_def disguised_header_def reverse_byte_array_def)

text \<open>
  C2: on the nine bytes \<open>99 99 03 02 01 03 00 00 00\<close> the mask length is 3 and
  the new size is \<open>9 - 3 - 4 = 2\<close>: \<open>reveal_file\<close> reads \<open>03 02 01\<close> at offset 2, writes
  \<open>01 02 03\<close> at offset 0 and truncates to two bytes, so it returns \<open>True\<close> and leaves the
  file \<open>01 02\<close>.
\<close>

theorem reveal_file_scenario:
  assumes "fs p = Some [0x99, 0x99, 3, 2, 1, 3, 0, 0, 0]"
  shows "reveal_file p fs =
           \<lparr>returned = True, stdout = [],
            calls = [Seek (- 4) SEEK_END, Read 4, Seek 2 SEEK_SET, Read 3, Seek 0 SEEK_SET,
                     Write [1, 2, 3], Truncate 2],
            files = fs(p \<mapsto> [1, 2])\<rparr>"
  using reveal_file_run [of fs p "[0x99, 0x99, 3, 2, 1, 3, 0, 0, 0]" 3] assms
  by (simp add: bytes_to_int_def trailer_def disguised_header_def)

theorem reveal_file_scenario_witness:
  "files (reveal_file ''1.zip.mp4'' [''1.zip.mp4'' \<mapsto> [0x99, 0x99, 3, 2, 1, 3, 0, 0, 0]])
     = [''1.zip.mp4'' \<mapsto> [1, 2]]"
  using reveal_file_scenario
      [of "[''1.zip.mp4'' \<mapsto> [0x99, 0x99, 3, 2, 1, 3, 0, 0, 0]]" "''1.zip.mp4''"]
  by simp

text \<open>The file of the scenario does not become \<open>99 99 01 02 03\<close>.\<close>

theorem reveal_file_scenario_counterexample:
  "returned (reveal_file ''1.zip.mp4'' [''1.zip.mp4'' \<mapsto> [0x99, 0x99, 3, 2, 1, 3, 0, 0, 0]])
   \<and> files (reveal_file ''1.zip.mp4'' [''1.zip.mp4'' \<mapsto> [0x99, 0x99, 3, 2, 1, 3, 0, 0, 0]])
         ''1.zip.mp4''
       \<noteq> Some [0x99, 0x99, 1, 2, 3]"
  using reveal_file_run [of "[''1.zip.mp4'' \<mapsto> [0x99, 0x99, 3, 2, 1, 3, 0, 0, 0]]" "''1.zip.mp4''"
      "[0x99, 0x99, 3, 2, 1, 3, 0, 0, 0]" 3]
  by (simp add: bytes_to_int_def trailer_def disguised_header_def)

text \<open>
  C1: for \<open>orig\<close> of length \<open>L\<close> with \<open>0 < L < 2^32 - 4\<close>, \<open>reveal_file\<close> on
  \<open>tail || reverse(orig) || littleEndian32(L)\<close> rejects the file and leaves it as it is
  when \<open>tail\<close> is empty. When \<open>tail\<close> is not empty it returns \<open>True\<close> and leaves a file
  of \<open>len(tail)\<close> bytes: the first \<open>len(tail)\<close> bytes of \<open>orig\<close> followed by \<open>tail\<close>
  without its first \<open>L\<close> bytes. So when \<open>tail\<close> is a mask of \<open>L\<close> bytes followed by
  \<open>rest\<close>, the file becomes \<open>orig || rest\<close>. The masked file is built with the list
  reversal \<open>rev\<close> of the format, so the program itself has to undo the reversal.
\<close>

theorem reveal_file_roundtrip:
  assumes "0 < length orig" and "int (length orig) < 2 ^ 32 - 4"
    and "fs p = Some (tail @ rev orig @ littleEndian32 (int (length orig)))"
  shows "(tail = [] \<longrightarrow>
            \<not> returned (reveal_file p fs) \<and> files (reveal_file p fs) = fs)
       \<and> (tail \<noteq> [] \<longrightarrow>
            returned (reveal_file p fs)
            \<and> files (reveal_file p fs)
                = fs(p \<mapsto> take (length tail) (orig @ drop (length orig) tail))
            \<and> (\<forall>mask rest. tail = mask @ rest \<and> length mask = length orig \<longrightarrow>
                  files (reveal_file p fs) = fs(p \<mapsto> orig @ rest)))"
proof -
  define le where "le = littleEndian32 (int (length orig))"
  define data where "data = tail @ rev orig @ le"
  have lle: "length le = 4" by (simp add: le_def littleEndian32_def)
  have ld: "length data = length tail + length orig + 4"
    by (simp add: data_def lle)
  have fs: "fs p = Some data"
    using assms(3) by (simp add: data_def le_def)
  have tr: "trailer data = le"
    using trailer_append [OF lle, of "tail @ rev orig"] by (simp add: data_def)
  have dec: "bytes_to_int (trailer data) = Inr (int (length orig))"
    unfolding tr le_def using assms(2) by (intro bytes_to_int_littleEndian32) simp_all
  have len: "4 < length data" using assms(1) ld by simp
  note run = reveal_file_run [of fs p data "int (length orig)", OF fs len dec]
  show ?thesis
  proof (cases "tail = []")
    case True
    then show ?thesis using run ld by simp
  next
    case False
    have hdr: "disguised_header data (length orig) = rev orig"
      by (simp add: disguised_header_def ld) (simp add: data_def)
    have t: "take (length tail - length orig) (drop (length orig) data) = drop (length orig) tail"
      by (simp add: data_def)
    have "reveal_file p fs =
       \<lparr>returned = True, stdout = [],
        calls = [Seek (- 4) SEEK_END, Read 4,
                 Seek (int (length data) - 4 - int (length orig)) SEEK_SET,
                 Read (int (length orig)), Seek 0 SEEK_SET, Write orig,
                 Truncate (int (length data) - int (length orig) - 4)],
        files = fs(p \<mapsto> take (length tail) (orig @ drop (length orig) tail))\<rparr>"
      using run assms(1) False by (simp add: hdr ld t)
    then show ?thesis using False by auto
  qed
qed

text \<open>
  The mask \<open>4D 50\<close> and the rest \<open>07 08 09\<close>, then the header \<open>50 4B\<close> reversed and the
  trailer 2: the file becomes \<open>50 4B 07 08 09\<close>. The same header and trailer with
  nothing before them are rejected.
\<close>

theorem reveal_file_roundtrip_witness:
  "files (reveal_file ''1.zip.mp4''
           [''1.zip.mp4'' \<mapsto> [0x4D, 0x50, 7, 8, 9, 0x4B, 0x50, 2, 0, 0, 0]])
     = [''1.zip.mp4'' \<mapsto> [0x50, 0x4B, 7, 8, 9]]
   \<and> \<not> returned (reveal_file ''2.zip.mp4'' [''2.zip.mp4'' \<mapsto> [0x4B, 0x50, 2, 0, 0, 0]])"
  using reveal_file_roundtrip [of "[0x50, 0x4B]"
      "[''1.zip.mp4'' \<mapsto> [0x4D, 0x50, 7, 8, 9, 0x4B, 0x50, 2, 0, 0, 0]]" "''1.zip.mp4''"
      "[0x4D, 0x50, 7, 8, 9]"]
    reveal_file_roundtrip [of "[0x50, 0x4B]"
      "[''2.zip.mp4'' \<mapsto> [0x4B, 0x50, 2, 0, 0, 0]]" "''2.zip.mp4''" "[]"]
  by (simp add: littleEndian32_def)

text \<open>
  With \<open>orig = AA BB\<close> and \<open>tail = 01 02 03\<close> the masked file is
  \<open>01 02 03 BB AA 02 00 00 00\<close>; it becomes \<open>AA BB 03\<close>, three bytes, and not
  \<open>orig || tail\<close>.
\<close>

theorem reveal_file_roundtrip_counterexample:
  "[1, 2, 3, 0xBB, 0xAA, 2, 0, 0, 0] = [1, 2, 3] @ rev [0xAA, 0xBB] @ littleEndian32 2
   \<and> returned (reveal_file ''1.zip.mp4''
                [''1.zip.mp4'' \<mapsto> [1, 2, 3, 0xBB, 0xAA, 2, 0, 0, 0]])
   \<and> files (reveal_file ''1.zip.mp4''
              [''1.zip.mp4'' \<mapsto> [1, 2, 3, 0xBB, 0xAA, 2, 0, 0, 0]])
         ''1.zip.mp4''
       = Some [0xAA, 0xBB, 3]
   \<and> [0xAA, 0xBB, 3] \<noteq> [0xAA, 0xBB] @ [1, 2, 3 :: byte]"
  using reveal_file_run [of "[''1.zip.mp4'' \<mapsto> [1, 2, 3, 0xBB, 0xAA, 2, 0, 0, 0]]" "''1.zip.mp4''"
      "[1, 2, 3, 0xBB, 0xAA, 2, 0, 0, 0]" 2]
  by (simp add: bytes_to_int_def trailer_def disguised_header_def littleEndian32_def)

section \<open>Stripping the extension\<close>
















section \<open>Byte reversal\<close>

text \<open>
  C9: \<open>reverse_byte_array\<close> keeps the length of its argument and is its own inverse, and
  it does reverse: the byte at index \<open>i\<close> of the result is the byte at index
  \<open>length b - 1 - i\<close> of the argument. So applied to a header that the masking stored
  reversed it gives back exactly the original header bytes.
\<close>

theorem reverse_byte_array_involution:
  "length (reverse_byte_array b) = length b
   \<and> reverse_byte_array (reverse_byte_array b) = b
   \<and> reverse_byte_array (rev b) = b
   \<and> (\<forall>i. i < length b \<longrightarrow> reverse_byte_array b ! i = b ! (length b - 1 - i))"
  by (simp add: reverse_byte_array_def rev_nth)

text \<open>The header \<open>50 4B 03 04\<close>, stored as \<open>04 03 4B 50\<close>, comes back.\<close>

theorem reverse_byte_array_involution_witness:
  "reverse_byte_array [0x04, 0x03, 0x4B, 0x50] = [0x50, 0x4B, 0x03, 0x04]
   \<and> reverse_byte_array [0x04, 0x03, 0x4B, 0x50] ! 0 = 0x50
   \<and> length (reverse_byte_array [0x04, 0x03, 0x4B, 0x50]) = 4"
proof -
  have r: "rev [0x50, 0x4B, 0x03, 0x04 :: byte] = [0x04, 0x03, 0x4B, 0x50]" by simp
  have "reverse_byte_array (rev [0x50, 0x4B, 0x03, 0x04]) = [0x50, 0x4B, 0x03, 0x04]"
    using reverse_byte_array_involution [of "[0x50, 0x4B, 0x03, 0x04]"] by blast
  then have e: "reverse_byte_array [0x04, 0x03, 0x4B, 0x50] = [0x50, 0x4B, 0x03, 0x04]"
    unfolding r .
  then show ?thesis by simp
qed

end
